theory Spec2Isabelle
  imports Complex_Main
begin

section \<open>Deferred stability pool: core and pool ledger\<close>

text \<open>
  The development embeds \<^verbatim>\<open>docs/pseudocode_stable.py\<close> (the core: oracle, NAV,
  mint and redeem, tier function, L3 rebalance, checks) and
  \<^verbatim>\<open>docs/rebalance_pool.py\<close> (the stability pool ledger).

  Modelling conventions.
  \<^item> Python floats are idealised as \<^typ>\<open>real\<close>: arithmetic is exact, there is no
    rounding, overflow, infinity or NaN. Timestamps are \<^typ>\<open>int\<close>. The one exception
    is the pool's deposit and withdrawal, which are modelled a second time with every
    arithmetic result rounded to binary64 (the functions named \<open>_f64\<close>), for the
    property that depends on rounding.
  \<^item> The module-level globals of both files are the fields of one record \<open>state\<close>.
    Both modules have a global named \<^verbatim>\<open>sp_obligation_sui\<close>. The pool's is the one its
    functions assign. The core's is bound by
    \<^verbatim>\<open>from rebalance_pool import sp_obligation_sui, ...\<close> to the float the pool's name
    holds when the core is loaded, 0.0, and no statement of either file assigns it again:
    it is the field \<open>core_sp_obligation_sui\<close>, which no operation writes. The two
    functions imported by the same statement are the pool's own and act on the pool's
    globals. (This is the program with the core loaded first, so that its import
    succeeds; the \<^verbatim>\<open>except\<close> branch, with stand-ins that never burn, is not
    modelled.)
  \<^item> A \<^verbatim>\<open>raise\<close> is the left injection of a sum and carries the state at the moment of
    the raise: a Python exception does not undo assignments made before it.
  \<^item> Float division by zero raises \<^verbatim>\<open>ZeroDivisionError\<close> in Python; every division
    whose divisor is not guarded by the source has that branch in the model.
  \<^item> An \<^verbatim>\<open>SPUser\<close> object is passed by reference and mutated in place; the model
    passes the record in and returns the updated record.
\<close>

subsection \<open>Parameters\<close>

definition CR_T_L1 :: real where "CR_T_L1 = 1306 / 1000"
definition CR_T_L2 :: real where "CR_T_L2 = 1206 / 1000"
definition CR_T_L3 :: real where "CR_T_L3 = 1144 / 1000"
definition CR_T_L4 :: real where "CR_T_L4 = 1050 / 1000"

definition PF_FIXED :: real where "PF_FIXED = 1"

definition MAX_STALENESS_SEC :: int where "MAX_STALENESS_SEC = 3600"
definition MAX_REL_STEP :: real where "MAX_REL_STEP = 20 / 100"

definition MAX_F_BURN_FRACTION_PER_CALL :: real where "MAX_F_BURN_FRACTION_PER_CALL = 50 / 100"

definition EPS :: real where "EPS = 1 / 10 ^ 12"

definition HARVEST_BOUNTY_BPS :: real where "HARVEST_BOUNTY_BPS = 100"
definition SP_MAX_BURN_FRAC_CALL :: real where "SP_MAX_BURN_FRAC_CALL = 50 / 100"
definition BPS :: real where "BPS = 10000"

subsection \<open>State\<close>

record state =
  Nf :: real
  Nx :: real
  Pf :: real
  Px :: real
  p_sui :: real
  last_oracle_ts :: int
  reserve_sui :: real
  treasury_sui :: real
  sp_scale :: real
  sp_scaled_total :: real
  sp_index_sui_scaled :: real
  sp_obligation_sui :: real
  core_sp_obligation_sui :: real

record SPUser =
  ftoken_balance :: real
  sp_scaled :: real
  sp_index_snap :: real

text \<open>The values the globals are bound to when the modules are loaded.\<close>

definition init_state :: state where
  "init_state = \<lparr> Nf = 0, Nx = 0, Pf = PF_FIXED, Px = 0, p_sui = 0, last_oracle_ts = 0,
     reserve_sui = 0, treasury_sui = 0,
     sp_scale = 1, sp_scaled_total = 0, sp_index_sui_scaled = 0, sp_obligation_sui = 0,
     core_sp_obligation_sui = 0 \<rparr>"

text \<open>\<^verbatim>\<open>SPUser.__init__\<close>.\<close>

definition new_SPUser :: SPUser where
  "new_SPUser = \<lparr> ftoken_balance = 0, sp_scaled = 0, sp_index_snap = 0 \<rparr>"

datatype error =
    OracleTooStale
  | OracleStepTooLarge
  | BadAmount
  | InsufficientReserveNet
  | BadTarget
  | OracleNotSet
  | InsufficientSPBalance
  | InsufficientReserveForClaim
  | ZeroDivisionError
  | CallbackError

type_synonym ('a, 's) res = "(error \<times> 's) + ('a \<times> 's)"

subsection \<open>Core helpers\<close>

definition reserve_usd :: "state \<Rightarrow> real" where
  "reserve_usd s = reserve_sui s * p_sui s"

definition reserve_net_sui :: "state \<Rightarrow> real" where
  "reserve_net_sui s = max 0 (reserve_sui s - core_sp_obligation_sui s)"

definition reserve_net_usd :: "state \<Rightarrow> real" where
  "reserve_net_usd s = reserve_net_sui s * p_sui s"

definition collateral_ratio :: "state \<Rightarrow> real" where
  "collateral_ratio s = (let denom = max EPS (Nf s * Pf s) in reserve_net_usd s / denom)"

definition update_px :: "state \<Rightarrow> state" where
  "update_px s =
     (if Nx s \<le> EPS then s
      else s\<lparr>Px := max 0 ((reserve_usd s - Nf s * Pf s) / max EPS (Nx s))\<rparr>)"

subsection \<open>Oracle and NAV updater\<close>

definition update_from_oracle :: "real \<Rightarrow> int \<Rightarrow> state \<Rightarrow> (unit, state) res" where
  "update_from_oracle p_new now_ts s =
     (if last_oracle_ts s \<noteq> 0 \<and> now_ts - last_oracle_ts s > MAX_STALENESS_SEC
        then Inl (OracleTooStale, s)
      else if last_oracle_ts s \<noteq> 0 \<and> \<bar>p_new / max EPS (p_sui s) - 1\<bar> > MAX_REL_STEP
        then Inl (OracleStepTooLarge, s)
      else Inr ((), update_px (s\<lparr>p_sui := p_new, last_oracle_ts := now_ts, Pf := PF_FIXED\<rparr>)))"

subsection \<open>Tier function\<close>


subsection \<open>Mint and redeem\<close>

definition mint_ftoken :: "real \<Rightarrow> state \<Rightarrow> (real, state) res" where
  "mint_ftoken deposit_sui s =
     (if deposit_sui \<le> 0 then Inl (BadAmount, s)
      else let s1 = s\<lparr>reserve_sui := reserve_sui s + deposit_sui\<rparr> in
        if Pf s1 = 0 then Inl (ZeroDivisionError, s1)
        else let issued_f = deposit_sui * p_sui s1 / Pf s1;
                 s2 = s1\<lparr>Nf := Nf s1 + issued_f\<rparr>
             in Inr (issued_f, update_px s2))"

definition redeem_ftoken :: "real \<Rightarrow> state \<Rightarrow> (real, state) res" where
  "redeem_ftoken burn_f s =
     (if burn_f \<le> 0 \<or> burn_f > Nf s then Inl (BadAmount, s)
      else if p_sui s = 0 then Inl (ZeroDivisionError, s)
      else let sui_out = burn_f * Pf s / p_sui s in
        if sui_out > reserve_net_sui s then Inl (InsufficientReserveNet, s)
        else Inr (sui_out,
               update_px (s\<lparr>reserve_sui := reserve_sui s - sui_out, Nf := Nf s - burn_f\<rparr>)))"

subsection \<open>Stability pool: views and the controller hook\<close>

definition sp_total_f :: "state \<Rightarrow> real" where
  "sp_total_f s = sp_scaled_total s * sp_scale s"

definition sp_quote_burn_cap :: "state \<Rightarrow> real" where
  "sp_quote_burn_cap s = SP_MAX_BURN_FRAC_CALL * sp_total_f s"

definition sp_controller_rebalance :: "real \<Rightarrow> real \<Rightarrow> state \<Rightarrow> (real \<times> real) \<times> state" where
  "sp_controller_rebalance f_burn payout_sui s =
     (let f_total_pre = sp_total_f s in
      if f_total_pre \<le> EPS \<or> f_burn \<le> EPS then ((0, 0), s)
      else let allowed_burn = min f_burn (SP_MAX_BURN_FRAC_CALL * f_total_pre) in
        if allowed_burn \<le> EPS then ((0, 0), s)
        else let sui_per_f = payout_sui / f_burn;
                 allowed_payout = sui_per_f * allowed_burn
             in if sp_scaled_total s \<le> EPS then ((0, 0), s)
                else let delta = allowed_payout / sp_scaled_total s;
                         s1 = s\<lparr>sp_index_sui_scaled := sp_index_sui_scaled s + delta,
                                sp_obligation_sui := sp_obligation_sui s + allowed_payout\<rparr>;
                         frac = allowed_burn / f_total_pre;
                         s2 = s1\<lparr>sp_scale := sp_scale s1 * max 0 (1 - frac)\<rparr>
                     in ((allowed_burn, allowed_payout), s2))"

subsection \<open>Stability pool: user flows\<close>

definition settle_user :: "state \<Rightarrow> SPUser \<Rightarrow> real \<times> SPUser" where
  "settle_user s user =
     (let owed = sp_scaled user * (sp_index_sui_scaled s - sp_index_snap user)
      in (max 0 owed, user\<lparr>sp_index_snap := sp_index_sui_scaled s\<rparr>))"

definition sp_deposit :: "real \<Rightarrow> state \<times> SPUser \<Rightarrow> (unit, state \<times> SPUser) res" where
  "sp_deposit f_amount su =
     (case su of (s, user) \<Rightarrow>
      if f_amount \<le> 0 \<or> ftoken_balance user < f_amount then Inl (BadAmount, (s, user))
      else let u1 = snd (settle_user s user) in
        if sp_scale s = 0 then Inl (ZeroDivisionError, (s, u1))
        else let scaled = f_amount / sp_scale s;
                 u2 = u1\<lparr>ftoken_balance := ftoken_balance u1 - f_amount,
                        sp_scaled := sp_scaled u1 + scaled\<rparr>
             in Inr ((), (s\<lparr>sp_scaled_total := sp_scaled_total s + scaled\<rparr>, u2)))"

definition sp_withdraw :: "real \<Rightarrow> state \<times> SPUser \<Rightarrow> (unit, state \<times> SPUser) res" where
  "sp_withdraw f_amount su =
     (case su of (s, user) \<Rightarrow>
      if f_amount \<le> 0 then Inl (BadAmount, (s, user))
      else let u1 = snd (settle_user s user);
               available = sp_scaled u1 * sp_scale s
           in if f_amount > available + EPS then Inl (InsufficientSPBalance, (s, u1))
              else if sp_scale s = 0 then Inl (ZeroDivisionError, (s, u1))
              else let scaled = f_amount / sp_scale s;
                       u2 = u1\<lparr>sp_scaled := sp_scaled u1 - scaled\<rparr>;
                       u3 = u2\<lparr>ftoken_balance := ftoken_balance u2 + f_amount\<rparr>
                   in Inr ((), (s\<lparr>sp_scaled_total := sp_scaled_total s - scaled\<rparr>, u3)))"

text \<open>
  The payment callback of \<^verbatim>\<open>sp_claim\<close> is any callable: it receives the amount, may
  change the globals, and either returns or raises.
\<close>

type_synonym callback = "real \<Rightarrow> state \<Rightarrow> (error \<times> state) + state"

definition sp_claim :: "callback \<Rightarrow> state \<times> SPUser \<Rightarrow> (real, state \<times> SPUser) res" where
  "sp_claim core_pay_sui_cb su =
     (case su of (s, user) \<Rightarrow>
      let (owed, u1) = settle_user s user in
      if owed \<le> EPS then Inr (0, (s, u1))
      else case core_pay_sui_cb owed s of
             Inl (e, s1) \<Rightarrow> Inl (e, (s1, u1))
           | Inr s1 \<Rightarrow>
               let ob = sp_obligation_sui s1 - owed
               in Inr (owed, (s1\<lparr>sp_obligation_sui := (if ob < 0 then 0 else ob)\<rparr>, u1)))"

text \<open>The callback the core offers for \<^verbatim>\<open>sp_claim\<close>.\<close>

definition sp_claim_pay_sui :: callback where
  "sp_claim_pay_sui amount_sui s =
     (if amount_sui \<le> 0 then Inr s
      else if amount_sui > reserve_sui s + EPS then Inl (InsufficientReserveForClaim, s)
      else Inr (s\<lparr>reserve_sui := reserve_sui s - amount_sui\<rparr>))"

subsection \<open>Yield harvest indexing\<close>

definition sp_index_harvest :: "real \<Rightarrow> state \<Rightarrow> real \<times> state" where
  "sp_index_harvest yield_sui s =
     (if yield_sui \<le> EPS \<or> sp_scaled_total s \<le> EPS then (0, s)
      else let bounty = (yield_sui * HARVEST_BOUNTY_BPS) / BPS;
               to_pool = yield_sui - bounty;
               delta = to_pool / sp_scaled_total s
           in (bounty, s\<lparr>sp_index_sui_scaled := sp_index_sui_scaled s + delta,
                         sp_obligation_sui := sp_obligation_sui s + to_pool\<rparr>))"

subsection \<open>L3 protocol rebalance\<close>

definition compute_f_burn_needed_for_target :: "real \<Rightarrow> state \<Rightarrow> error + real" where
  "compute_f_burn_needed_for_target target_cr s =
     (if target_cr \<le> 0 then Inl BadTarget
      else if target_cr * Pf s = 0 then Inl ZeroDivisionError
      else let nf_target = (reserve_net_sui s * p_sui s) / (target_cr * Pf s)
           in Inr (max 0 (Nf s - nf_target)))"

definition protocol_rebalance_L3_to_target :: "real \<Rightarrow> state \<Rightarrow> (real \<times> real, state) res" where
  "protocol_rebalance_L3_to_target target_cr s =
     (if p_sui s \<le> EPS then Inl (OracleNotSet, s)
      else if Nf s \<le> EPS then Inr ((0, 0), s)
      else case compute_f_burn_needed_for_target target_cr s of
             Inl e \<Rightarrow> Inl (e, s)
           | Inr need \<Rightarrow>
               if need \<le> EPS then Inr ((0, 0), s)
               else let cap_sp = sp_quote_burn_cap s;
                        f_burn = max 0 (min need (min cap_sp (Nf s)))
                    in if f_burn \<le> EPS then Inr ((0, 0), s)
                       else let payout_sui = f_burn * Pf s / p_sui s;
                                ((burned, indexed_sui), s1) = sp_controller_rebalance f_burn payout_sui s
                            in if burned \<le> EPS then Inr ((0, 0), s1)
                               else Inr ((burned, indexed_sui), update_px (s1\<lparr>Nf := Nf s1 - burned\<rparr>)))"

subsection \<open>Invariant and solvency checks\<close>

definition check_invariant :: "real \<Rightarrow> state \<Rightarrow> bool" where
  "check_invariant tol s =
     (let lhs = reserve_usd s; rhs = Nf s * Pf s + Nx s * Px s in \<bar>lhs - rhs\<bar> \<le> tol)"

definition check_solvency :: "state \<Rightarrow> bool" where
  "check_solvency s \<longleftrightarrow> reserve_sui s + EPS \<ge> core_sp_obligation_sui s"

text \<open>
  The solvency relation in the words of the specification, whose \<open>obligation_total\<close>
  is the amount the pool has promised: \<open>reserve_amount + epsilon \<ge> obligation_total\<close>.
\<close>

definition solvent :: "state \<Rightarrow> bool" where
  "solvent s \<longleftrightarrow> reserve_sui s + EPS \<ge> sp_obligation_sui s"

subsection \<open>Deposit and withdrawal in binary64\<close>

text \<open>
  A Python float is an IEEE 754 binary64 value, and every arithmetic operation returns
  the exact result rounded to the nearest such value, ties to the even significand.
  \<open>fl\<close> is that rounding for results in the normal range (neither overflow nor
  subnormal values are modelled): \<open>normalise\<close> scales the magnitude into
  \<open>[2^52, 2^53)\<close>, counting the exponent, and the scaled magnitude is rounded to an
  integer. The fuel 2200 exceeds the span of the binary64 exponents.
\<close>

definition round_half_even :: "real \<Rightarrow> int" where
  "round_half_even x =
     (let n = \<lfloor>x\<rfloor>; r = x - of_int n
      in if r < 1 / 2 then n else if r > 1 / 2 then n + 1 else if even n then n else n + 1)"

fun normalise :: "nat \<Rightarrow> real \<Rightarrow> int \<Rightarrow> real \<times> int" where
  "normalise 0 m e = (m, e)"
| "normalise (Suc k) m e =
     (if m \<ge> 2 ^ 53 then normalise k (m / 2) (e + 1)
      else if m < 2 ^ 52 then normalise k (m * 2) (e - 1)
      else (m, e))"

definition pow2 :: "int \<Rightarrow> real" where
  "pow2 e = (if e \<ge> 0 then 2 ^ nat e else 1 / 2 ^ nat (- e))"

definition fl :: "real \<Rightarrow> real" where
  "fl x = (if x = 0 then 0
           else case normalise 2200 \<bar>x\<bar> 0 of (m, e) \<Rightarrow> sgn x * of_int (round_half_even m) * pow2 e)"

text \<open>The four operations, and the literal \<^verbatim>\<open>1e-12\<close> as Python reads it.\<close>

definition fadd :: "real \<Rightarrow> real \<Rightarrow> real" where "fadd x y = fl (x + y)"
definition fsub :: "real \<Rightarrow> real \<Rightarrow> real" where "fsub x y = fl (x - y)"
definition fmul :: "real \<Rightarrow> real \<Rightarrow> real" where "fmul x y = fl (x * y)"
definition fdiv :: "real \<Rightarrow> real \<Rightarrow> real" where "fdiv x y = fl (x / y)"

definition EPS_f64 :: real where "EPS_f64 = fl (1 / 10 ^ 12)"

text \<open>
  \<^verbatim>\<open>_settle_user\<close>, \<^verbatim>\<open>sp_deposit\<close> and \<^verbatim>\<open>sp_withdraw\<close> again, statement by
  statement, with the result of every arithmetic operation rounded.
\<close>

definition settle_user_f64 :: "state \<Rightarrow> SPUser \<Rightarrow> real \<times> SPUser" where
  "settle_user_f64 s user =
     (let owed = fmul (sp_scaled user) (fsub (sp_index_sui_scaled s) (sp_index_snap user))
      in (max 0 owed, user\<lparr>sp_index_snap := sp_index_sui_scaled s\<rparr>))"

definition sp_deposit_f64 :: "real \<Rightarrow> state \<times> SPUser \<Rightarrow> (unit, state \<times> SPUser) res" where
  "sp_deposit_f64 f_amount su =
     (case su of (s, user) \<Rightarrow>
      if f_amount \<le> 0 \<or> ftoken_balance user < f_amount then Inl (BadAmount, (s, user))
      else let u1 = snd (settle_user_f64 s user) in
        if sp_scale s = 0 then Inl (ZeroDivisionError, (s, u1))
        else let scaled = fdiv f_amount (sp_scale s);
                 u2 = u1\<lparr>ftoken_balance := fsub (ftoken_balance u1) f_amount,
                        sp_scaled := fadd (sp_scaled u1) scaled\<rparr>
             in Inr ((), (s\<lparr>sp_scaled_total := fadd (sp_scaled_total s) scaled\<rparr>, u2)))"

definition sp_withdraw_f64 :: "real \<Rightarrow> state \<times> SPUser \<Rightarrow> (unit, state \<times> SPUser) res" where
  "sp_withdraw_f64 f_amount su =
     (case su of (s, user) \<Rightarrow>
      if f_amount \<le> 0 then Inl (BadAmount, (s, user))
      else let u1 = snd (settle_user_f64 s user);
               available = fmul (sp_scaled u1) (sp_scale s)
           in if f_amount > fadd available EPS_f64 then Inl (InsufficientSPBalance, (s, u1))
              else if sp_scale s = 0 then Inl (ZeroDivisionError, (s, u1))
              else let scaled = fdiv f_amount (sp_scale s);
                       u2 = u1\<lparr>sp_scaled := fsub (sp_scaled u1) scaled\<rparr>;
                       u3 = u2\<lparr>ftoken_balance := fadd (ftoken_balance u2) f_amount\<rparr>
                   in Inr ((), (s\<lparr>sp_scaled_total := fsub (sp_scaled_total s) scaled\<rparr>, u3)))"

subsection \<open>Sequences of operations\<close>

text \<open>
  The host keeps one \<^verbatim>\<open>SPUser\<close> object per depositor; a system state is the globals
  together with that store. An operation that raises leaves the assignments made before
  the raise in place, and the next operation runs on that state.
\<close>

record system =
  glob :: state
  users :: "nat \<Rightarrow> SPUser"

datatype op =
    UpdateFromOracle real int
  | MintFtoken real
  | RedeemFtoken real
  | SpDeposit nat real
  | SpWithdraw nat real
  | SpClaim nat
  | ProtocolRebalance real
  | SpIndexHarvest real

datatype retval = RNone | RFloat real | RPair real real

definition lift_core :: "system \<Rightarrow> ('a \<Rightarrow> retval) \<Rightarrow> ('a, state) res \<Rightarrow> (error + retval) \<times> system" where
  "lift_core sys f r =
     (case r of Inl (e, s) \<Rightarrow> (Inl e, sys\<lparr>glob := s\<rparr>)
              | Inr (v, s) \<Rightarrow> (Inr (f v), sys\<lparr>glob := s\<rparr>))"

definition lift_user :: "system \<Rightarrow> nat \<Rightarrow> ('a \<Rightarrow> retval) \<Rightarrow> ('a, state \<times> SPUser) res \<Rightarrow> (error + retval) \<times> system" where
  "lift_user sys uid f r =
     (case r of Inl (e, (s, u)) \<Rightarrow> (Inl e, sys\<lparr>glob := s, users := (users sys)(uid := u)\<rparr>)
              | Inr (v, (s, u)) \<Rightarrow> (Inr (f v), sys\<lparr>glob := s, users := (users sys)(uid := u)\<rparr>))"

text \<open>One public operation; \<^verbatim>\<open>sp_claim\<close> is paid through the core's callback.\<close>

fun step :: "system \<Rightarrow> op \<Rightarrow> (error + retval) \<times> system" where
  "step sys (UpdateFromOracle p t) = lift_core sys (\<lambda>_. RNone) (update_from_oracle p t (glob sys))"
| "step sys (MintFtoken d) = lift_core sys RFloat (mint_ftoken d (glob sys))"
| "step sys (RedeemFtoken b) = lift_core sys RFloat (redeem_ftoken b (glob sys))"
| "step sys (SpDeposit uid a) = lift_user sys uid (\<lambda>_. RNone) (sp_deposit a (glob sys, users sys uid))"
| "step sys (SpWithdraw uid a) = lift_user sys uid (\<lambda>_. RNone) (sp_withdraw a (glob sys, users sys uid))"
| "step sys (SpClaim uid) = lift_user sys uid RFloat (sp_claim sp_claim_pay_sui (glob sys, users sys uid))"
| "step sys (ProtocolRebalance target_cr) =
     lift_core sys (\<lambda>(b, i). RPair b i) (protocol_rebalance_L3_to_target target_cr (glob sys))"
| "step sys (SpIndexHarvest y) =
     (case sp_index_harvest y (glob sys) of (b, s) \<Rightarrow> (Inr (RFloat b), sys\<lparr>glob := s\<rparr>))"

text \<open>The outcome and the state after each operation of a sequence, in order.\<close>

fun run :: "system \<Rightarrow> op list \<Rightarrow> ((error + retval) \<times> system) list" where
  "run sys [] = []"
| "run sys (x # xs) = (let r = step sys x in r # run (snd r) xs)"

definition is_ok :: "(error + retval) \<times> system \<Rightarrow> bool" where
  "is_ok r = (case fst r of Inl _ \<Rightarrow> False | Inr _ \<Rightarrow> True)"

text \<open>The state an operation leaves behind, whether it returned or raised.\<close>

definition res_state :: "('a, 's) res \<Rightarrow> 's" where
  "res_state r = (case r of Inl (e, s) \<Rightarrow> s | Inr (v, s) \<Rightarrow> s)"

text \<open>Mint, redeem, deposit, withdraw and claim.\<close>

fun user_flow :: "op \<Rightarrow> bool" where
  "user_flow (MintFtoken _) = True"
| "user_flow (RedeemFtoken _) = True"
| "user_flow (SpDeposit _ _) = True"
| "user_flow (SpWithdraw _ _) = True"
| "user_flow (SpClaim _) = True"
| "user_flow _ = False"

text \<open>
  The system as the modules start it, with depositors that have never used the pool and
  hold the free token balances the host gives them.
\<close>

definition init_system :: "(nat \<Rightarrow> real) \<Rightarrow> system" where
  "init_system bal =
     \<lparr> glob = init_state, users = (\<lambda>uid. new_SPUser\<lparr>ftoken_balance := bal uid\<rparr>) \<rparr>"

text \<open>The globals before a sequence of operations and after each of them, in order.\<close>

definition states_of :: "system \<Rightarrow> op list \<Rightarrow> state list" where
  "states_of sys ops = glob sys # map (\<lambda>r. glob (snd r)) (run sys ops)"

subsection \<open>Concrete states used to evaluate the operations\<close>

text \<open>A state after an accepted oracle sample: price 2 recorded at time 1000.\<close>

definition priced_state :: state where
  "priced_state = init_state\<lparr>p_sui := 2, last_oracle_ts := 1000\<rparr>"

text \<open>
  Price 2, reserve 100, 200 liability tokens outstanding, all of them deposited in the
  pool at scale 1.
\<close>

definition pool_state :: state where
  "pool_state = priced_state\<lparr>reserve_sui := 100, Nf := 200, sp_scaled_total := 200\<rparr>"

text \<open>The same after a pool burn of 50 tokens that indexed 25 reserve units.\<close>

definition burned_state :: state where
  "burned_state = pool_state\<lparr>Nf := 150, sp_index_sui_scaled := 1 / 8,
     sp_obligation_sui := 25, sp_scale := 3 / 4\<rparr>"

text \<open>A depositor holding 100 scaled shares and 50 free tokens, last settled at index 0.\<close>

definition user_a :: SPUser where
  "user_a = \<lparr> ftoken_balance = 50, sp_scaled = 100, sp_index_snap = 0 \<rparr>"

text \<open>A payment callback that raises without changing anything.\<close>

definition failing_cb :: callback where
  "failing_cb amount_sui s = Inl (CallbackError, s)"

text \<open>
  The scenario of the specification: price 2, a mint of 100 reserve units, two depositors
  with 100 tokens each, a rebalance that needs to burn 50, then a harvest of 10.
\<close>

definition scenario_ops :: "op list" where
  "scenario_ops = [UpdateFromOracle 2 1000, MintFtoken 100, SpDeposit 0 100, SpDeposit 1 100,
     ProtocolRebalance (4 / 3), SpIndexHarvest 10]"

text \<open>
  Two depositors in the state of \<open>user_a\<close>, everybody else new, with the globals of
  \<open>pool_state\<close>.
\<close>

definition pool_users :: "nat \<Rightarrow> SPUser" where
  "pool_users uid = (if uid < 2 then user_a else new_SPUser)"

definition pool_system :: system where
  "pool_system = \<lparr> glob = pool_state, users = pool_users \<rparr>"

definition flow_ops :: "op list" where
  "flow_ops = [MintFtoken 10, RedeemFtoken 50, SpDeposit 0 30, SpWithdraw 1 30, SpClaim 0]"

definition bootstrap_ops :: "op list" where
  "bootstrap_ops = [MintFtoken 100, SpDeposit 0 50, SpWithdraw 0 20, SpClaim 0]"

text \<open>
  Three runs from the initial state: a harvest of 1000 indexed on a reserve of 100; a
  price that falls from 2 to 1 in accepted steps, followed by two rebalances; and a
  rebalance followed by a price step and the redemption of the remaining supply.
\<close>

definition harvest_ops :: "op list" where
  "harvest_ops = [UpdateFromOracle 2 1000, MintFtoken 100, SpDeposit 0 100, SpIndexHarvest 1000]"

definition drain_ops :: "op list" where
  "drain_ops = [UpdateFromOracle 2 1000, MintFtoken 100, SpDeposit 0 100, SpDeposit 1 100,
     UpdateFromOracle (17 / 10) 1001, UpdateFromOracle (14 / 10) 1002,
     UpdateFromOracle (12 / 10) 1003, UpdateFromOracle 1 1004,
     ProtocolRebalance CR_T_L1, ProtocolRebalance CR_T_L1]"

definition redeem_ops :: "op list" where
  "redeem_ops = [UpdateFromOracle 2 1000, MintFtoken 100, SpDeposit 0 100, SpDeposit 1 100,
     ProtocolRebalance (4 / 3), UpdateFromOracle (7 / 4) 1001, RedeemFtoken 150]"

text \<open>
  A depositor who has never used the pool and holds 2000000 free tokens, and the double
  that Python reads from the literal \<^verbatim>\<open>1000000.1\<close>.
\<close>

definition new_depositor :: SPUser where
  "new_depositor = new_SPUser\<lparr>ftoken_balance := 2000000\<rparr>"

definition amount_f64 :: real where
  "amount_f64 = fl (10000001 / 10)"

section \<open>Facts shared by the proofs\<close>

lemmas params = EPS_def PF_FIXED_def SP_MAX_BURN_FRAC_CALL_def CR_T_L1_def CR_T_L2_def
  CR_T_L3_def CR_T_L4_def MAX_REL_STEP_def MAX_STALENESS_SEC_def HARVEST_BOUNTY_BPS_def BPS_def

lemmas example_states = priced_state_def pool_state_def burned_state_def init_state_def
  user_a_def new_SPUser_def

lemmas system_defs = pool_users_def pool_system_def

lemmas op_defs = update_from_oracle_def update_px_def mint_ftoken_def redeem_ftoken_def
  sp_deposit_def sp_withdraw_def sp_claim_def sp_claim_pay_sui_def settle_user_def
  sp_index_harvest_def protocol_rebalance_L3_to_target_def compute_f_burn_needed_for_target_def
  sp_controller_rebalance_def sp_quote_burn_cap_def sp_total_f_def reserve_net_sui_def
  lift_core_def lift_user_def init_system_def

lemma EPS_pos: "0 < EPS"
  by (simp add: EPS_def)

subsection \<open>Evaluating the rounding\<close>

lemma normalise_numeral:
  "normalise (numeral n) m e =
     (if m \<ge> 2 ^ 53 then normalise (pred_numeral n) (m / 2) (e + 1)
      else if m < 2 ^ 52 then normalise (pred_numeral n) (m * 2) (e - 1)
      else (m, e))"
  by (simp add: numeral_eq_Suc)

lemmas fl_eval = fl_def round_half_even_def pow2_def normalise_numeral

lemmas f64_defs = fadd_def fsub_def fmul_def fdiv_def EPS_f64_def

lemma amount_f64_value: "amount_f64 = 8589935450993459 / 8589934592"
  by (simp add: amount_f64_def fl_eval)

subsection \<open>The state after an operation\<close>

lemma res_state_simps [simp]: "res_state (Inl (e, s)) = s" "res_state (Inr (v, s)) = s"
  by (simp_all add: res_state_def)

lemma snd_lift_core: "snd (lift_core sys f r) = sys\<lparr>glob := res_state r\<rparr>"
  by (cases r) (auto simp: lift_core_def)

lemma snd_lift_user:
  "snd (lift_user sys uid f r)
     = sys\<lparr>glob := fst (res_state r), users := (users sys)(uid := snd (res_state r))\<rparr>"
  by (cases r) (auto simp: lift_user_def)

lemma update_px_fields [simp]:
  "Nf (update_px s) = Nf s" "Nx (update_px s) = Nx s" "Pf (update_px s) = Pf s"
  "p_sui (update_px s) = p_sui s" "last_oracle_ts (update_px s) = last_oracle_ts s"
  "reserve_sui (update_px s) = reserve_sui s" "sp_scale (update_px s) = sp_scale s"
  "sp_scaled_total (update_px s) = sp_scaled_total s"
  "sp_index_sui_scaled (update_px s) = sp_index_sui_scaled s"
  "sp_obligation_sui (update_px s) = sp_obligation_sui s"
  by (simp_all add: update_px_def)

subsection \<open>The controller hook of the pool\<close>

lemma sp_controller_rebalance_exec:
  assumes fb: "f_burn > EPS" and cap: "SP_MAX_BURN_FRAC_CALL * sp_total_f s > EPS"
    and st: "sp_scaled_total s > EPS"
  shows "sp_controller_rebalance f_burn payout_sui s =
           ((min f_burn (SP_MAX_BURN_FRAC_CALL * sp_total_f s),
             (payout_sui / f_burn) * min f_burn (SP_MAX_BURN_FRAC_CALL * sp_total_f s)),
            s\<lparr>sp_index_sui_scaled := sp_index_sui_scaled s
                 + (payout_sui / f_burn) * min f_burn (SP_MAX_BURN_FRAC_CALL * sp_total_f s)
                   / sp_scaled_total s,
              sp_obligation_sui := sp_obligation_sui s
                 + (payout_sui / f_burn) * min f_burn (SP_MAX_BURN_FRAC_CALL * sp_total_f s),
              sp_scale := sp_scale s
                 * (1 - min f_burn (SP_MAX_BURN_FRAC_CALL * sp_total_f s) / sp_total_f s)\<rparr>)"
proof -
  define eb where "eb = min f_burn (SP_MAX_BURN_FRAC_CALL * sp_total_f s)"
  have tot: "sp_total_f s > EPS" using cap EPS_pos by (simp add: SP_MAX_BURN_FRAC_CALL_def)
  have eb: "eb > EPS" using fb cap by (simp add: eb_def)
  have half: "eb \<le> sp_total_f s / 2"
    by (simp add: eb_def SP_MAX_BURN_FRAC_CALL_def min_def)
  have frac: "eb / sp_total_f s \<le> 1"
    using half tot EPS_pos by (simp add: pos_divide_le_eq)
  have mx: "max 0 (1 - eb / sp_total_f s) = 1 - eb / sp_total_f s"
    using frac by simp
  show ?thesis
    unfolding eb_def [symmetric]
    using fb tot st eb mx
    by (simp add: sp_controller_rebalance_def Let_def eb_def [symmetric] not_le [symmetric])
qed

lemma sp_controller_rebalance_cases:
  "sp_controller_rebalance f_burn payout_sui s = ((0, 0), s)
   \<or> (f_burn > EPS \<and> SP_MAX_BURN_FRAC_CALL * sp_total_f s > EPS \<and> sp_scaled_total s > EPS)"
proof (cases "sp_total_f s \<le> EPS \<or> f_burn \<le> EPS")
  case True
  then show ?thesis by (simp add: sp_controller_rebalance_def)
next
  case a: False
  show ?thesis
  proof (cases "min f_burn (SP_MAX_BURN_FRAC_CALL * sp_total_f s) \<le> EPS")
    case True
    then show ?thesis using a by (simp add: sp_controller_rebalance_def Let_def)
  next
    case b: False
    show ?thesis
    proof (cases "sp_scaled_total s \<le> EPS")
      case True
      then show ?thesis using a b by (simp add: sp_controller_rebalance_def Let_def)
    next
      case c: False
      from b have "EPS < f_burn \<and> EPS < SP_MAX_BURN_FRAC_CALL * sp_total_f s"
        by (simp add: min_def split: if_splits)
      then show ?thesis using c by simp
    qed
  qed
qed

lemma sp_controller_rebalance_frame:
  "Nf (snd (sp_controller_rebalance f p s)) = Nf s"
  "Nx (snd (sp_controller_rebalance f p s)) = Nx s"
  "Pf (snd (sp_controller_rebalance f p s)) = Pf s"
  "Px (snd (sp_controller_rebalance f p s)) = Px s"
  "p_sui (snd (sp_controller_rebalance f p s)) = p_sui s"
  "reserve_sui (snd (sp_controller_rebalance f p s)) = reserve_sui s"
  "sp_scaled_total (snd (sp_controller_rebalance f p s)) = sp_scaled_total s"
  using sp_controller_rebalance_cases [of f p s] sp_controller_rebalance_exec [of f s p]
  by auto

lemma sp_controller_rebalance_scale_index:
  assumes sc: "0 < sp_scale s" and pay: "0 \<le> payout_sui"
  shows "sp_scale (snd (sp_controller_rebalance f_burn payout_sui s)) \<le> sp_scale s
       \<and> 0 < sp_scale (snd (sp_controller_rebalance f_burn payout_sui s))
       \<and> sp_index_sui_scaled s \<le> sp_index_sui_scaled (snd (sp_controller_rebalance f_burn payout_sui s))"
proof -
  from sp_controller_rebalance_cases [of f_burn payout_sui s]
  show ?thesis
  proof
    assume "sp_controller_rebalance f_burn payout_sui s = ((0, 0), s)"
    then show ?thesis using sc by simp
  next
    assume a: "f_burn > EPS \<and> SP_MAX_BURN_FRAC_CALL * sp_total_f s > EPS \<and> sp_scaled_total s > EPS"
    define eb where "eb = min f_burn (SP_MAX_BURN_FRAC_CALL * sp_total_f s)"
    have tot: "sp_total_f s > 0" using a EPS_pos by (simp add: SP_MAX_BURN_FRAC_CALL_def)
    have eb0: "0 < eb" using a EPS_pos by (simp add: eb_def)
    have half: "eb \<le> sp_total_f s / 2"
      by (simp add: eb_def SP_MAX_BURN_FRAC_CALL_def min_def)
    have f1: "eb / sp_total_f s \<le> 1 / 2" using half tot by (simp add: pos_divide_le_eq)
    have f0: "0 \<le> eb / sp_total_f s" using eb0 tot by simp
    have k: "0 < 1 - eb / sp_total_f s" "1 - eb / sp_total_f s \<le> 1" using f0 f1 by linarith+
    have s1: "sp_scale s * (1 - eb / sp_total_f s) \<le> sp_scale s * 1"
      using k sc by (intro mult_left_mono) simp_all
    have s2: "0 < sp_scale s * (1 - eb / sp_total_f s)" using k sc by simp
    have fpos: "0 < f_burn" using a EPS_pos by linarith
    have stpos: "0 < sp_scaled_total s" using a EPS_pos by linarith
    have d: "0 \<le> (payout_sui / f_burn) * eb / sp_scaled_total s"
      using pay fpos eb0 stpos by simp
    show ?thesis
      using sp_controller_rebalance_exec [of f_burn s payout_sui] a s1 s2 d
      by (simp add: eb_def)
  qed
qed

subsection \<open>The L3 rebalance\<close>

lemma need_zero_of_cr:
  assumes t: "target_cr > 0" and pf: "Pf s > 0" and cr: "collateral_ratio s \<ge> target_cr"
  shows "compute_f_burn_needed_for_target target_cr s = Inr 0"
proof -
  let ?d = "max EPS (Nf s * Pf s)"
  have d: "0 < ?d" using EPS_pos by (simp add: max_def)
  have "target_cr \<le> reserve_net_usd s / ?d"
    using cr by (simp add: collateral_ratio_def Let_def)
  then have "target_cr * ?d \<le> reserve_net_usd s"
    using d by (simp add: pos_le_divide_eq)
  moreover have "target_cr * (Nf s * Pf s) \<le> target_cr * ?d"
    using t by (intro mult_left_mono) simp_all
  ultimately have "Nf s * (target_cr * Pf s) \<le> reserve_net_sui s * p_sui s"
    by (simp add: reserve_net_usd_def mult_ac)
  moreover have tp: "0 < target_cr * Pf s" using t pf by simp
  ultimately have "Nf s \<le> reserve_net_sui s * p_sui s / (target_cr * Pf s)"
    by (simp add: pos_le_divide_eq)
  then show ?thesis
    using t pf by (simp add: compute_f_burn_needed_for_target_def Let_def)
qed

lemma sp_controller_rebalance_small:
  assumes "fst (fst (sp_controller_rebalance f p s)) \<le> EPS"
  shows "sp_controller_rebalance f p s = ((0, 0), s)"
proof -
  from sp_controller_rebalance_cases [of f p s] show ?thesis
  proof
    assume "sp_controller_rebalance f p s = ((0, 0), s)"
    then show ?thesis .
  next
    assume a: "f > EPS \<and> SP_MAX_BURN_FRAC_CALL * sp_total_f s > EPS \<and> sp_scaled_total s > EPS"
    then have "fst (fst (sp_controller_rebalance f p s)) = min f (SP_MAX_BURN_FRAC_CALL * sp_total_f s)"
      using sp_controller_rebalance_exec [of f s p] by simp
    moreover have "EPS < min f (SP_MAX_BURN_FRAC_CALL * sp_total_f s)" using a by simp
    ultimately show ?thesis using assms by linarith
  qed
qed

lemma protocol_rebalance_state:
  "res_state (protocol_rebalance_L3_to_target t s) = s
   \<or> (\<exists>f. f > EPS \<and> p_sui s > EPS
          \<and> fst (fst (sp_controller_rebalance f (f * Pf s / p_sui s) s)) > EPS
          \<and> res_state (protocol_rebalance_L3_to_target t s)
              = update_px ((snd (sp_controller_rebalance f (f * Pf s / p_sui s) s))
                  \<lparr>Nf := Nf (snd (sp_controller_rebalance f (f * Pf s / p_sui s) s))
                         - fst (fst (sp_controller_rebalance f (f * Pf s / p_sui s) s))\<rparr>))"
proof (cases "p_sui s \<le> EPS \<or> Nf s \<le> EPS")
  case True
  then show ?thesis by (auto simp: protocol_rebalance_L3_to_target_def)
next
  case a: False
  show ?thesis
  proof (cases "compute_f_burn_needed_for_target t s")
    case (Inl e)
    then show ?thesis using a by (simp add: protocol_rebalance_L3_to_target_def)
  next
    case (Inr need)
    define f where "f = max 0 (min need (min (sp_quote_burn_cap s) (Nf s)))"
    obtain burned indexed s1
      where r: "sp_controller_rebalance f (f * Pf s / p_sui s) s = ((burned, indexed), s1)"
      by (metis prod.collapse)
    have eq: "protocol_rebalance_L3_to_target t s =
               (if need \<le> EPS then Inr ((0, 0), s)
                else if f \<le> EPS then Inr ((0, 0), s)
                else if burned \<le> EPS then Inr ((0, 0), s1)
                else Inr ((burned, indexed), update_px (s1\<lparr>Nf := Nf s1 - burned\<rparr>)))"
      unfolding protocol_rebalance_L3_to_target_def Inr sum.case Let_def f_def [symmetric] r
      using a by simp
    show ?thesis
    proof (cases "need \<le> EPS \<or> f \<le> EPS")
      case True
      then show ?thesis by (auto simp: eq)
    next
      case b: False
      show ?thesis
      proof (cases "burned \<le> EPS")
        case True
        then have "sp_controller_rebalance f (f * Pf s / p_sui s) s = ((0, 0), s)"
          using sp_controller_rebalance_small [of f "f * Pf s / p_sui s" s] r by simp
        then have "s1 = s" using r by simp
        then show ?thesis using b True by (simp add: eq)
      next
        case False
        then show ?thesis using a b r
          by (intro disjI2 exI [of _ f]) (simp add: eq)
      qed
    qed
  qed
qed

lemma protocol_rebalance_scale_index:
  assumes sc: "0 < sp_scale s" and pf: "0 \<le> Pf s"
  shows "sp_scale (res_state (protocol_rebalance_L3_to_target t s)) \<le> sp_scale s
       \<and> 0 < sp_scale (res_state (protocol_rebalance_L3_to_target t s))
       \<and> sp_index_sui_scaled s \<le> sp_index_sui_scaled (res_state (protocol_rebalance_L3_to_target t s))
       \<and> Pf (res_state (protocol_rebalance_L3_to_target t s)) = Pf s"
proof -
  from protocol_rebalance_state [of t s] show ?thesis
  proof
    assume "res_state (protocol_rebalance_L3_to_target t s) = s"
    then show ?thesis using sc by simp
  next
    assume "\<exists>f. f > EPS \<and> p_sui s > EPS
          \<and> fst (fst (sp_controller_rebalance f (f * Pf s / p_sui s) s)) > EPS
          \<and> res_state (protocol_rebalance_L3_to_target t s)
              = update_px ((snd (sp_controller_rebalance f (f * Pf s / p_sui s) s))
                  \<lparr>Nf := Nf (snd (sp_controller_rebalance f (f * Pf s / p_sui s) s))
                         - fst (fst (sp_controller_rebalance f (f * Pf s / p_sui s) s))\<rparr>)"
    then obtain f where f: "f > EPS" "p_sui s > EPS"
      and st: "res_state (protocol_rebalance_L3_to_target t s)
              = update_px ((snd (sp_controller_rebalance f (f * Pf s / p_sui s) s))
                  \<lparr>Nf := Nf (snd (sp_controller_rebalance f (f * Pf s / p_sui s) s))
                         - fst (fst (sp_controller_rebalance f (f * Pf s / p_sui s) s))\<rparr>)"
      by blast
    have "0 < f" "0 < p_sui s" using f EPS_pos by linarith+
    then have pay: "0 \<le> f * Pf s / p_sui s" using pf by simp
    show ?thesis
      using sp_controller_rebalance_scale_index [OF sc pay, of f]
        sp_controller_rebalance_frame(3) [of f "f * Pf s / p_sui s" s]
      by (simp add: st)
  qed
qed

subsection \<open>Scale and index, operation by operation\<close>

lemma sp_index_harvest_scale_index:
  "sp_scale (snd (sp_index_harvest y s)) = sp_scale s
   \<and> sp_index_sui_scaled s \<le> sp_index_sui_scaled (snd (sp_index_harvest y s))
   \<and> Pf (snd (sp_index_harvest y s)) = Pf s"
proof (cases "y \<le> EPS \<or> sp_scaled_total s \<le> EPS")
  case True
  then show ?thesis by (simp add: sp_index_harvest_def)
next
  case False
  then have "0 < y" "0 < sp_scaled_total s" using EPS_pos by linarith+
  then have "0 \<le> (y - y * HARVEST_BOUNTY_BPS / BPS) / sp_scaled_total s"
    by (simp add: HARVEST_BOUNTY_BPS_def BPS_def)
  then show ?thesis using False by (simp add: sp_index_harvest_def Let_def)
qed

lemma user_flow_pool_frame:
  "sp_scale (fst (res_state (sp_deposit a (s, u)))) = sp_scale s"
  "sp_index_sui_scaled (fst (res_state (sp_deposit a (s, u)))) = sp_index_sui_scaled s"
  "Pf (fst (res_state (sp_deposit a (s, u)))) = Pf s"
  "sp_scale (fst (res_state (sp_withdraw a (s, u)))) = sp_scale s"
  "sp_index_sui_scaled (fst (res_state (sp_withdraw a (s, u)))) = sp_index_sui_scaled s"
  "Pf (fst (res_state (sp_withdraw a (s, u)))) = Pf s"
  "sp_scale (fst (res_state (sp_claim sp_claim_pay_sui (s, u)))) = sp_scale s"
  "sp_index_sui_scaled (fst (res_state (sp_claim sp_claim_pay_sui (s, u)))) = sp_index_sui_scaled s"
  "Pf (fst (res_state (sp_claim sp_claim_pay_sui (s, u)))) = Pf s"
  by (simp_all add: sp_deposit_def sp_withdraw_def sp_claim_def sp_claim_pay_sui_def
      settle_user_def Let_def)

lemma core_flow_pool_frame:
  "sp_scale (res_state (update_from_oracle p t s)) = sp_scale s"
  "sp_index_sui_scaled (res_state (update_from_oracle p t s)) = sp_index_sui_scaled s"
  "0 \<le> Pf s \<Longrightarrow> 0 \<le> Pf (res_state (update_from_oracle p t s))"
  "sp_scale (res_state (mint_ftoken d s)) = sp_scale s"
  "sp_index_sui_scaled (res_state (mint_ftoken d s)) = sp_index_sui_scaled s"
  "Pf (res_state (mint_ftoken d s)) = Pf s"
  "sp_scale (res_state (redeem_ftoken b s)) = sp_scale s"
  "sp_index_sui_scaled (res_state (redeem_ftoken b s)) = sp_index_sui_scaled s"
  "Pf (res_state (redeem_ftoken b s)) = Pf s"
  by (simp_all add: update_from_oracle_def mint_ftoken_def redeem_ftoken_def Let_def PF_FIXED_def)

lemma step_scale_index:
  assumes sc: "0 < sp_scale (glob sys)" and pf: "0 \<le> Pf (glob sys)"
  shows "sp_scale (glob (snd (step sys x))) \<le> sp_scale (glob sys)
       \<and> 0 < sp_scale (glob (snd (step sys x)))
       \<and> sp_index_sui_scaled (glob sys) \<le> sp_index_sui_scaled (glob (snd (step sys x)))
       \<and> 0 \<le> Pf (glob (snd (step sys x)))"
proof (cases x)
  case (UpdateFromOracle p t)
  then show ?thesis using sc pf by (simp add: snd_lift_core core_flow_pool_frame)
next
  case (MintFtoken d)
  then show ?thesis using sc pf by (simp add: snd_lift_core core_flow_pool_frame)
next
  case (RedeemFtoken b)
  then show ?thesis using sc pf by (simp add: snd_lift_core core_flow_pool_frame)
next
  case (SpDeposit uid a)
  then show ?thesis using sc pf by (simp add: snd_lift_user user_flow_pool_frame)
next
  case (SpWithdraw uid a)
  then show ?thesis using sc pf by (simp add: snd_lift_user user_flow_pool_frame)
next
  case (SpClaim uid)
  then show ?thesis using sc pf by (simp add: snd_lift_user user_flow_pool_frame)
next
  case (ProtocolRebalance t)
  then show ?thesis
    using protocol_rebalance_scale_index [OF sc pf, of t] pf by (simp add: snd_lift_core)
next
  case (SpIndexHarvest y)
  then show ?thesis
    using sp_index_harvest_scale_index [of y "glob sys"] sc pf
    by (simp add: case_prod_beta)
qed

lemma states_of_simps:
  "states_of sys [] = [glob sys]"
  "states_of sys (x # xs) = glob sys # states_of (snd (step sys x)) xs"
  by (simp_all add: states_of_def Let_def)

lemma run_scale_index:
  assumes "0 < sp_scale (glob sys)" and "0 \<le> Pf (glob sys)"
  shows "\<forall>g \<in> set (states_of sys ops).
           sp_scale g \<le> sp_scale (glob sys) \<and> 0 < sp_scale g
           \<and> sp_index_sui_scaled (glob sys) \<le> sp_index_sui_scaled g"
  using assms
proof (induction ops arbitrary: sys)
  case Nil
  then show ?case by (simp add: states_of_simps)
next
  case (Cons x xs)
  let ?n = "snd (step sys x)"
  from step_scale_index [OF Cons.prems, of x]
  have st: "sp_scale (glob ?n) \<le> sp_scale (glob sys)" "0 < sp_scale (glob ?n)"
    "sp_index_sui_scaled (glob sys) \<le> sp_index_sui_scaled (glob ?n)" "0 \<le> Pf (glob ?n)"
    by simp_all
  from Cons.IH [OF st(2) st(4)]
  have "\<forall>g \<in> set (states_of ?n xs).
           sp_scale g \<le> sp_scale (glob sys) \<and> 0 < sp_scale g
           \<and> sp_index_sui_scaled (glob sys) \<le> sp_index_sui_scaled g"
    using st(1) st(3) by fastforce
  then show ?case using Cons.prems(1) by (simp add: states_of_simps)
qed

subsection \<open>Evaluating a run\<close>

lemma run_Cons: "run sys (x # xs) = step sys x # run (snd (step sys x)) xs"
  by (simp add: Let_def)

lemma is_ok_simps: "is_ok (Inr v, sys) = True" "is_ok (Inl e, sys) = False"
  by (simp_all add: is_ok_def)

subsection \<open>Value conservation, operation by operation\<close>

lemma update_px_check:
  assumes inv: "check_invariant tol s0" and px: "EPS < Nx s0 \<longrightarrow> 0 \<le> Px s0"
    and d: "reserve_usd s - Nf s * Pf s = reserve_usd s0 - Nf s0 * Pf s0"
    and nx: "Nx s = Nx s0" and pxs: "Px s = Px s0"
  shows "check_invariant tol (update_px s) \<and> (EPS < Nx (update_px s) \<longrightarrow> 0 \<le> Px (update_px s))"
proof (cases "Nx s \<le> EPS")
  case True
  then have "update_px s = s" by (simp add: update_px_def)
  then show ?thesis using inv d nx pxs True by (simp add: check_invariant_def Let_def)
next
  case False
  then have n: "0 < Nx s" "max EPS (Nx s) = Nx s" using EPS_pos by simp_all
  define D where "D = reserve_usd s - Nf s * Pf s"
  have p: "Px (update_px s) = max 0 (D / Nx s)"
    using False n by (simp add: update_px_def D_def)
  have m: "Nx s * max 0 (D / Nx s) = max 0 D"
    using n(1) by (simp add: max_def field_simps)
  have "0 \<le> Nx s0 * Px s0" using px False nx n(1) by simp
  moreover have "\<bar>D - Nx s0 * Px s0\<bar> \<le> tol"
    using inv d by (simp add: check_invariant_def Let_def D_def)
  ultimately have "\<bar>D - max 0 D\<bar> \<le> tol" by linarith
  moreover have "check_invariant tol (update_px s)
      \<longleftrightarrow> \<bar>reserve_usd s - (Nf s * Pf s + Nx s * Px (update_px s))\<bar> \<le> tol"
    by (simp add: check_invariant_def Let_def reserve_usd_def)
  moreover have "reserve_usd s - (Nf s * Pf s + Nx s * Px (update_px s)) = D - max 0 D"
    unfolding p m by (simp add: D_def)
  ultimately have "check_invariant tol (update_px s)" by simp
  then show ?thesis using p by simp
qed

lemma mint_invariant:
  assumes inv: "check_invariant tol s" and px: "EPS < Nx s \<longrightarrow> 0 \<le> Px s"
    and ok: "mint_ftoken d s = Inr (v, s')"
  shows "check_invariant tol s' \<and> (EPS < Nx s' \<longrightarrow> 0 \<le> Px s')
       \<and> sp_index_sui_scaled s' = sp_index_sui_scaled s"
proof -
  have c: "\<not> d \<le> 0" "Pf s \<noteq> 0"
    using ok by (auto simp: mint_ftoken_def Let_def split: if_splits)
  define s1 where "s1 = s\<lparr>reserve_sui := reserve_sui s + d, Nf := Nf s + d * p_sui s / Pf s\<rparr>"
  have s': "s' = update_px s1"
    using ok c by (auto simp: mint_ftoken_def Let_def s1_def)
  have "reserve_usd s1 - Nf s1 * Pf s1 = reserve_usd s - Nf s * Pf s"
    using c by (simp add: s1_def reserve_usd_def field_simps)
  moreover have "Nx s1 = Nx s" "Px s1 = Px s" by (simp_all add: s1_def)
  ultimately show ?thesis
    using update_px_check [OF inv px, of s1] by (simp add: s' s1_def)
qed

lemma redeem_invariant:
  assumes inv: "check_invariant tol s" and px: "EPS < Nx s \<longrightarrow> 0 \<le> Px s"
    and ok: "redeem_ftoken b s = Inr (v, s')"
  shows "check_invariant tol s' \<and> (EPS < Nx s' \<longrightarrow> 0 \<le> Px s')
       \<and> sp_index_sui_scaled s' = sp_index_sui_scaled s"
proof -
  have c: "p_sui s \<noteq> 0"
    using ok by (auto simp: redeem_ftoken_def Let_def split: if_splits)
  define s1 where "s1 = s\<lparr>reserve_sui := reserve_sui s - b * Pf s / p_sui s, Nf := Nf s - b\<rparr>"
  have s': "s' = update_px s1"
    using ok c by (auto simp: redeem_ftoken_def Let_def s1_def split: if_splits)
  have "reserve_usd s1 - Nf s1 * Pf s1 = reserve_usd s - Nf s * Pf s"
    using c by (simp add: s1_def reserve_usd_def field_simps)
  moreover have "Nx s1 = Nx s" "Px s1 = Px s" by (simp_all add: s1_def)
  ultimately show ?thesis
    using update_px_check [OF inv px, of s1] by (simp add: s' s1_def)
qed

lemma deposit_conserve:
  assumes "sp_scaled u * (sp_index_sui_scaled s - sp_index_snap u) \<le> EPS"
  shows "check_invariant tol (fst (res_state (sp_deposit a (s, u)))) = check_invariant tol s
       \<and> Nx (fst (res_state (sp_deposit a (s, u)))) = Nx s
       \<and> Px (fst (res_state (sp_deposit a (s, u)))) = Px s
       \<and> sp_index_sui_scaled (fst (res_state (sp_deposit a (s, u)))) = sp_index_sui_scaled s
       \<and> sp_scaled (snd (res_state (sp_deposit a (s, u))))
           * (sp_index_sui_scaled s - sp_index_snap (snd (res_state (sp_deposit a (s, u))))) \<le> EPS"
  using assms
  by (simp add: sp_deposit_def settle_user_def Let_def check_invariant_def reserve_usd_def
      less_imp_le [OF EPS_pos])

lemma withdraw_conserve:
  assumes "sp_scaled u * (sp_index_sui_scaled s - sp_index_snap u) \<le> EPS"
  shows "check_invariant tol (fst (res_state (sp_withdraw a (s, u)))) = check_invariant tol s
       \<and> Nx (fst (res_state (sp_withdraw a (s, u)))) = Nx s
       \<and> Px (fst (res_state (sp_withdraw a (s, u)))) = Px s
       \<and> sp_index_sui_scaled (fst (res_state (sp_withdraw a (s, u)))) = sp_index_sui_scaled s
       \<and> sp_scaled (snd (res_state (sp_withdraw a (s, u))))
           * (sp_index_sui_scaled s - sp_index_snap (snd (res_state (sp_withdraw a (s, u))))) \<le> EPS"
  using assms
  by (simp add: sp_withdraw_def settle_user_def Let_def check_invariant_def reserve_usd_def
      less_imp_le [OF EPS_pos])

lemma claim_conserve:
  assumes "sp_scaled u * (sp_index_sui_scaled s - sp_index_snap u) \<le> EPS"
  shows "sp_claim cb (s, u) = Inr (0, (s, u\<lparr>sp_index_snap := sp_index_sui_scaled s\<rparr>))"
proof -
  have "max 0 (sp_scaled u * (sp_index_sui_scaled s - sp_index_snap u)) \<le> EPS"
    using assms EPS_pos by simp
  then show ?thesis by (simp add: sp_claim_def settle_user_def Let_def)
qed

lemma step_conserve:
  assumes inv: "check_invariant tol (glob sys)"
    and px: "EPS < Nx (glob sys) \<longrightarrow> 0 \<le> Px (glob sys)"
    and acc: "\<forall>uid. sp_scaled (users sys uid)
                * (sp_index_sui_scaled (glob sys) - sp_index_snap (users sys uid)) \<le> EPS"
    and uf: "user_flow x" and ok: "is_ok (step sys x)"
  shows "check_invariant tol (glob (snd (step sys x)))
       \<and> (EPS < Nx (glob (snd (step sys x))) \<longrightarrow> 0 \<le> Px (glob (snd (step sys x))))
       \<and> (\<forall>uid. sp_scaled (users (snd (step sys x)) uid)
                * (sp_index_sui_scaled (glob (snd (step sys x)))
                   - sp_index_snap (users (snd (step sys x)) uid)) \<le> EPS)"
proof (cases x)
  case (UpdateFromOracle p t)
  then show ?thesis using uf by simp
next
  case (MintFtoken d)
  then obtain v s' where r: "mint_ftoken d (glob sys) = Inr (v, s')"
    using ok by (auto simp: is_ok_def lift_core_def split: sum.splits)
  show ?thesis
    using mint_invariant [OF inv px r] acc by (simp add: MintFtoken snd_lift_core r)
next
  case (RedeemFtoken b)
  then obtain v s' where r: "redeem_ftoken b (glob sys) = Inr (v, s')"
    using ok by (auto simp: is_ok_def lift_core_def split: sum.splits)
  show ?thesis
    using redeem_invariant [OF inv px r] acc by (simp add: RedeemFtoken snd_lift_core r)
next
  case (SpDeposit uid a)
  show ?thesis
    using deposit_conserve [OF acc [rule_format, of uid], of tol a] inv px acc
    by (simp add: SpDeposit snd_lift_user)
next
  case (SpWithdraw uid a)
  show ?thesis
    using withdraw_conserve [OF acc [rule_format, of uid], of tol a] inv px acc
    by (simp add: SpWithdraw snd_lift_user)
next
  case (SpClaim uid)
  show ?thesis
    using claim_conserve [OF acc [rule_format, of uid], of sp_claim_pay_sui] inv px acc
    by (simp add: SpClaim snd_lift_user less_imp_le [OF EPS_pos])
next
  case (ProtocolRebalance t)
  then show ?thesis using uf by simp
next
  case (SpIndexHarvest y)
  then show ?thesis using uf by simp
qed

section \<open>Oracle updates\<close>

text \<open>
  C9, as stated: after the first-ever update, an update \<open>MAX_STALENESS_SEC + 1\<close> later
  fails as too stale. The code recognises an earlier update by a recorded timestamp that
  is not 0. A first update at timestamp 0 records 0, and the update that follows it 3601
  seconds later, with a price five times the last, is accepted.
\<close>

theorem update_from_oracle_staleness_counterexample:
  "update_from_oracle 2 0 init_state = Inr ((), init_state\<lparr>p_sui := 2\<rparr>)
   \<and> 3601 - last_oracle_ts (init_state\<lparr>p_sui := 2\<rparr>) = MAX_STALENESS_SEC + 1
   \<and> update_from_oracle 10 3601 (init_state\<lparr>p_sui := 2\<rparr>)
       = Inr ((), init_state\<lparr>p_sui := 10, last_oracle_ts := 3601\<rparr>)"
  by (simp add: update_from_oracle_def update_px_def init_state_def params)

text \<open>
  C9, amended. While the recorded timestamp is not 0, an update whose timestamp is exactly
  \<open>MAX_STALENESS_SEC\<close> later is accepted (its price step being within bound) and one
  that is \<open>MAX_STALENESS_SEC + 1\<close> later is rejected as too stale. While the recorded
  timestamp is 0, every update is accepted. In every state a rejected update, too stale
  or too large a step, returns the state it was given.
\<close>

theorem update_from_oracle_staleness_boundary:
  "(last_oracle_ts s \<noteq> 0 \<longrightarrow>
       (now_ts - last_oracle_ts s = MAX_STALENESS_SEC
            \<and> \<bar>p_new / max EPS (p_sui s) - 1\<bar> \<le> MAX_REL_STEP
          \<longrightarrow> (\<exists>s'. update_from_oracle p_new now_ts s = Inr ((), s')
                    \<and> p_sui s' = p_new \<and> last_oracle_ts s' = now_ts))
       \<and> (now_ts - last_oracle_ts s = MAX_STALENESS_SEC + 1
          \<longrightarrow> update_from_oracle p_new now_ts s = Inl (OracleTooStale, s)))
   \<and> (last_oracle_ts s = 0 \<longrightarrow>
         (\<exists>s'. update_from_oracle p_new now_ts s = Inr ((), s')
               \<and> p_sui s' = p_new \<and> last_oracle_ts s' = now_ts))
   \<and> (\<forall>e s'. update_from_oracle p_new now_ts s = Inl (e, s')
          \<longrightarrow> s' = s \<and> (e = OracleTooStale \<or> e = OracleStepTooLarge))"
  by (auto simp: update_from_oracle_def update_px_def MAX_STALENESS_SEC_def split: if_splits)

theorem update_from_oracle_staleness_boundary_witness:
  "last_oracle_ts priced_state \<noteq> 0
   \<and> update_from_oracle (22 / 10) 4600 priced_state
       = Inr ((), priced_state\<lparr>p_sui := 22 / 10, last_oracle_ts := 4600\<rparr>)
   \<and> update_from_oracle (22 / 10) 4601 priced_state = Inl (OracleTooStale, priced_state)
   \<and> update_from_oracle 3 4600 priced_state = Inl (OracleStepTooLarge, priced_state)
   \<and> last_oracle_ts init_state = 0
   \<and> update_from_oracle 2 1000 init_state = Inr ((), priced_state)"
  using update_from_oracle_staleness_boundary [of priced_state 4600 "22 / 10"]
    update_from_oracle_staleness_boundary [of init_state 2 1000]
  by (simp add: update_from_oracle_def update_px_def priced_state_def init_state_def params)

section \<open>Minting before the first oracle sample\<close>

text \<open>
  C10. With the oracle price still 0, a mint of a positive amount does not raise: it adds
  the amount to the reserve, issues and returns 0 liability tokens, and leaves the
  liability supply as it was. (The liability NAV is the divisor of the issue formula; it
  is \<open>PF_FIXED\<close> in every state the code produces.)
\<close>

theorem mint_ftoken_unset_price:
  assumes "p_sui s = 0" and "deposit_sui > 0" and "Pf s \<noteq> 0"
  shows "\<exists>s'. mint_ftoken deposit_sui s = Inr (0, s')
            \<and> reserve_sui s' = reserve_sui s + deposit_sui
            \<and> Nf s' = Nf s"
  using assms by (simp add: mint_ftoken_def update_px_def Let_def)

theorem mint_ftoken_unset_price_witness:
  "p_sui init_state = 0 \<and> (100::real) > 0 \<and> Pf init_state \<noteq> 0
   \<and> mint_ftoken 100 init_state = Inr (0, init_state\<lparr>reserve_sui := 100\<rparr>)"
  using mint_ftoken_unset_price [of init_state 100]
  by (simp add: mint_ftoken_def update_px_def init_state_def params)

section \<open>Deposit followed by withdrawal\<close>

text \<open>
  C8. The claim is that a deposit of a positive amount within the free balance, followed
  at once by a withdrawal of the same amount, restores the free balance and the scaled
  total. In the code's doubles it does not. At scale 0.75 a depositor without shares
  deposits 1000000.1: the shares are the rounded quotient, and their product with the
  scale, the available balance, is one unit in the last place (\<open>2^-33\<close>, about
  \<open>1.16e-10\<close>) below the amount. Adding \<open>EPS\<close> rounds back to the same double, so the
  withdrawal of the amount just deposited raises "insufficient SP balance": the tokens
  stay in the pool and the free balance stays reduced.
\<close>

theorem sp_deposit_withdraw_f64_fails:
  "amount_f64 = 8589935450993459 / 8589934592
   \<and> 0 < amount_f64 \<and> amount_f64 \<le> ftoken_balance new_depositor
   \<and> sp_deposit_f64 amount_f64 (burned_state, new_depositor)
       = Inr ((), (burned_state\<lparr>sp_scaled_total := 5727482627454839 / 4294967296\<rparr>,
                   \<lparr>ftoken_balance = 8589933733006541 / 8589934592,
                    sp_scaled = 5726623633995639 / 4294967296, sp_index_snap = 1 / 8\<rparr>))
   \<and> fmul (5726623633995639 / 4294967296) (sp_scale burned_state)
       = 8589935450993458 / 8589934592
   \<and> fadd (8589935450993458 / 8589934592) EPS_f64 = 8589935450993458 / 8589934592
   \<and> sp_withdraw_f64 amount_f64
         (burned_state\<lparr>sp_scaled_total := 5727482627454839 / 4294967296\<rparr>,
          \<lparr>ftoken_balance = 8589933733006541 / 8589934592,
           sp_scaled = 5726623633995639 / 4294967296, sp_index_snap = 1 / 8\<rparr>)
       = Inl (InsufficientSPBalance,
              (burned_state\<lparr>sp_scaled_total := 5727482627454839 / 4294967296\<rparr>,
               \<lparr>ftoken_balance = 8589933733006541 / 8589934592,
                sp_scaled = 5726623633995639 / 4294967296, sp_index_snap = 1 / 8\<rparr>))"
proof -
  have dep: "sp_deposit_f64 amount_f64 (burned_state, new_depositor)
       = Inr ((), (burned_state\<lparr>sp_scaled_total := 5727482627454839 / 4294967296\<rparr>,
                   \<lparr>ftoken_balance = 8589933733006541 / 8589934592,
                    sp_scaled = 5726623633995639 / 4294967296, sp_index_snap = 1 / 8\<rparr>))"
    unfolding sp_deposit_f64_def settle_user_f64_def Let_def prod.case snd_conv
    by (simp add: amount_f64_value f64_defs fl_eval new_depositor_def example_states)
  have av: "fmul (5726623633995639 / 4294967296) (sp_scale burned_state)
       = 8589935450993458 / 8589934592"
    "fadd (8589935450993458 / 8589934592) EPS_f64 = 8589935450993458 / 8589934592"
    by (simp_all add: f64_defs fl_eval example_states)
  have wd: "sp_withdraw_f64 amount_f64
         (burned_state\<lparr>sp_scaled_total := 5727482627454839 / 4294967296\<rparr>,
          \<lparr>ftoken_balance = 8589933733006541 / 8589934592,
           sp_scaled = 5726623633995639 / 4294967296, sp_index_snap = 1 / 8\<rparr>)
       = Inl (InsufficientSPBalance,
              (burned_state\<lparr>sp_scaled_total := 5727482627454839 / 4294967296\<rparr>,
               \<lparr>ftoken_balance = 8589933733006541 / 8589934592,
                sp_scaled = 5726623633995639 / 4294967296, sp_index_snap = 1 / 8\<rparr>))"
    unfolding sp_withdraw_f64_def settle_user_f64_def Let_def prod.case snd_conv
    by (simp add: amount_f64_value f64_defs fl_eval example_states)
  have "0 < amount_f64" "amount_f64 \<le> ftoken_balance new_depositor"
    by (simp_all add: amount_f64_value new_depositor_def example_states)
  then show ?thesis using amount_f64_value dep av wd by simp
qed

text \<open>
  The failure is one of rounding alone. Over the reals, at a positive scale and for a
  depositor whose pool balance \<open>sp_scaled * sp_scale\<close> is not below \<open>- EPS\<close>, the same
  two calls succeed, give back the free balance and the shares, and return the globals,
  \<open>sp_scaled_total\<close> among them, to what they were.
\<close>

lemma sp_deposit_withdraw_exact:
  assumes "0 < a" and "a \<le> ftoken_balance u" and "0 < sp_scale s"
    and "- EPS \<le> sp_scaled u * sp_scale s"
  shows "\<exists>s1 u1 s2 u2. sp_deposit a (s, u) = Inr ((), (s1, u1))
           \<and> sp_withdraw a (s1, u1) = Inr ((), (s2, u2))
           \<and> ftoken_balance u2 = ftoken_balance u
           \<and> sp_scaled u2 = sp_scaled u
           \<and> sp_scaled_total s2 = sp_scaled_total s
           \<and> s2 = s"
proof -
  have "(sp_scaled u + a / sp_scale s) * sp_scale s = sp_scaled u * sp_scale s + a"
    using assms by (simp add: algebra_simps)
  then have "\<not> a > (sp_scaled u + a / sp_scale s) * sp_scale s + EPS"
    using assms(4) by linarith
  then show ?thesis
    using assms by (simp add: sp_deposit_def sp_withdraw_def settle_user_def Let_def)
qed

section \<open>The tier when no liability is outstanding\<close>




section \<open>The pool's burn-and-index primitive\<close>

text \<open>
  C4, as stated: for every requested burn above 0 on a non-empty pool the executed burn is
  the smaller of the request and the capped pool share. A request of \<open>10^-13\<close> tokens
  on a pool of 200 executes nothing: requests of at most \<open>EPS\<close> return \<open>(0, 0)\<close>.
\<close>

theorem sp_controller_rebalance_counterexample:
  "(0::real) < 1 / 10 ^ 13 \<and> 0 < sp_total_f pool_state
   \<and> fst (fst (sp_controller_rebalance (1 / 10 ^ 13) (1 / 10 ^ 13) pool_state))
       \<noteq> min (1 / 10 ^ 13) (SP_MAX_BURN_FRAC_CALL * sp_total_f pool_state)"
  by (simp add: sp_controller_rebalance_def sp_total_f_def example_states params)

text \<open>
  C4, amended. Take a requested payout that is not negative. When the requested burn,
  the capped pool share \<open>SP_MAX_BURN_FRAC_CALL * sp_total_f\<close> and the scaled total are
  all above \<open>EPS\<close>, the primitive executes the smaller of the request and the capped
  share, pays per executed unit what was requested per requested unit, adds the executed
  payout over the scaled total to the index and the executed payout to the obligation,
  multiplies the scale by one minus the executed share of the pre-burn pool, changes
  nothing else, and returns the executed pair, each component between 0 and its request.
  Otherwise it returns \<open>(0, 0)\<close> and changes nothing.
\<close>

theorem sp_controller_rebalance_effect:
  fixes f_burn payout_sui :: real and s :: state
  assumes pay: "payout_sui \<ge> 0"
  defines "executed_burn \<equiv> min f_burn (SP_MAX_BURN_FRAC_CALL * sp_total_f s)"
  defines "executed_payout \<equiv> (payout_sui / f_burn) * executed_burn"
  shows "(f_burn > EPS \<and> SP_MAX_BURN_FRAC_CALL * sp_total_f s > EPS \<and> sp_scaled_total s > EPS
          \<longrightarrow> sp_controller_rebalance f_burn payout_sui s =
                ((executed_burn, executed_payout),
                 s\<lparr>sp_index_sui_scaled := sp_index_sui_scaled s + executed_payout / sp_scaled_total s,
                   sp_obligation_sui := sp_obligation_sui s + executed_payout,
                   sp_scale := sp_scale s * (1 - executed_burn / sp_total_f s)\<rparr>)
              \<and> 0 \<le> executed_burn \<and> executed_burn \<le> f_burn
              \<and> 0 \<le> executed_payout \<and> executed_payout \<le> payout_sui)
       \<and> (\<not> (f_burn > EPS \<and> SP_MAX_BURN_FRAC_CALL * sp_total_f s > EPS \<and> sp_scaled_total s > EPS)
          \<longrightarrow> sp_controller_rebalance f_burn payout_sui s = ((0, 0), s))"
proof (rule conjI; rule impI)
  assume "\<not> (f_burn > EPS \<and> SP_MAX_BURN_FRAC_CALL * sp_total_f s > EPS \<and> sp_scaled_total s > EPS)"
  then show "sp_controller_rebalance f_burn payout_sui s = ((0, 0), s)"
    using sp_controller_rebalance_cases [of f_burn payout_sui s] by blast
next
  assume a: "f_burn > EPS \<and> SP_MAX_BURN_FRAC_CALL * sp_total_f s > EPS \<and> sp_scaled_total s > EPS"
  then have fb: "f_burn > EPS" and cap: "SP_MAX_BURN_FRAC_CALL * sp_total_f s > EPS"
    and st: "sp_scaled_total s > EPS" by simp_all
  have eb: "executed_burn > EPS" using fb cap by (simp add: executed_burn_def)
  have le: "executed_burn \<le> f_burn" by (simp add: executed_burn_def)
  have res: "sp_controller_rebalance f_burn payout_sui s =
           ((executed_burn, executed_payout),
            s\<lparr>sp_index_sui_scaled := sp_index_sui_scaled s + executed_payout / sp_scaled_total s,
              sp_obligation_sui := sp_obligation_sui s + executed_payout,
              sp_scale := sp_scale s * (1 - executed_burn / sp_total_f s)\<rparr>)"
    using sp_controller_rebalance_exec [OF fb cap st, of payout_sui]
    by (simp add: executed_burn_def executed_payout_def)
  have fpos: "0 < f_burn" using fb EPS_pos by linarith
  have ebpos: "0 \<le> executed_burn" using eb EPS_pos by linarith
  have p0: "0 \<le> executed_payout"
    using pay fpos ebpos by (simp add: executed_payout_def)
  have "executed_burn / f_burn \<le> 1" using le fpos by simp
  then have "payout_sui * (executed_burn / f_burn) \<le> payout_sui * 1"
    using pay by (rule mult_left_mono)
  then have p1: "executed_payout \<le> payout_sui" by (simp add: executed_payout_def)
  show "sp_controller_rebalance f_burn payout_sui s =
           ((executed_burn, executed_payout),
            s\<lparr>sp_index_sui_scaled := sp_index_sui_scaled s + executed_payout / sp_scaled_total s,
              sp_obligation_sui := sp_obligation_sui s + executed_payout,
              sp_scale := sp_scale s * (1 - executed_burn / sp_total_f s)\<rparr>)
        \<and> 0 \<le> executed_burn \<and> executed_burn \<le> f_burn
        \<and> 0 \<le> executed_payout \<and> executed_payout \<le> payout_sui"
    using res ebpos le p0 p1 by simp
qed

theorem sp_controller_rebalance_effect_witness:
  "(75::real) \<ge> 0 \<and> (150::real) > EPS \<and> SP_MAX_BURN_FRAC_CALL * sp_total_f pool_state > EPS
   \<and> sp_scaled_total pool_state > EPS
   \<and> sp_controller_rebalance 150 75 pool_state
       = ((100, 50), pool_state\<lparr>sp_index_sui_scaled := 1 / 4, sp_obligation_sui := 50,
                                sp_scale := 1 / 2\<rparr>)
   \<and> sp_controller_rebalance 50 25 pool_state
       = ((50, 25), pool_state\<lparr>sp_index_sui_scaled := 1 / 8, sp_obligation_sui := 25,
                               sp_scale := 3 / 4\<rparr>)
   \<and> \<not> (1 / 10 ^ 13 :: real) > EPS
   \<and> sp_controller_rebalance (1 / 10 ^ 13) (1 / 10 ^ 13) pool_state = ((0, 0), pool_state)"
  using sp_controller_rebalance_effect [where f_burn = 150 and s = pool_state and payout_sui = 75]
    sp_controller_rebalance_effect [where f_burn = 50 and s = pool_state and payout_sui = 25]
    sp_controller_rebalance_effect [where f_burn = "1 / 10 ^ 13" and s = pool_state
      and payout_sui = "1 / 10 ^ 13"]
  by (simp add: sp_total_f_def example_states params)

section \<open>A claim whose payment fails\<close>

text \<open>
  C3. A depositor with 100 scaled shares, last settled at index 0, claims at index 1/8
  through a callback that raises. The claim raises and the obligation is untouched, but
  the depositor's snapshot has already been moved to 1/8 by the settlement that precedes
  the callback: the 12.5 reserve units that a claim with a working callback pays from the
  same state are no longer claimable, the next claim returns 0.
\<close>

theorem sp_claim_failed_payment_moves_snapshot:
  "sp_claim failing_cb (burned_state, user_a)
     = Inl (CallbackError, (burned_state, user_a\<lparr>sp_index_snap := 1 / 8\<rparr>))
   \<and> sp_index_snap user_a = 0
   \<and> sp_claim sp_claim_pay_sui (burned_state, user_a)
       = Inr (25 / 2, (burned_state\<lparr>reserve_sui := 175 / 2, sp_obligation_sui := 25 / 2\<rparr>,
                       user_a\<lparr>sp_index_snap := 1 / 8\<rparr>))
   \<and> sp_claim sp_claim_pay_sui (burned_state, user_a\<lparr>sp_index_snap := 1 / 8\<rparr>)
       = Inr (0, (burned_state, user_a\<lparr>sp_index_snap := 1 / 8\<rparr>))"
  by (simp add: sp_claim_def settle_user_def Let_def failing_cb_def sp_claim_pay_sui_def
      example_states params)

section \<open>Rebalance calls that do nothing\<close>

text \<open>
  C5, as stated: a rebalance with a positive target returns \<open>(0, 0)\<close> when the oracle
  price is unset. In the state the modules start in the price is 0 and the call raises
  "oracle not set".
\<close>

theorem protocol_rebalance_noop_counterexample:
  "p_sui init_state = 0 \<and> Nf init_state \<le> EPS \<and> (0::real) < CR_T_L1
   \<and> protocol_rebalance_L3_to_target CR_T_L1 init_state = Inl (OracleNotSet, init_state)"
  by (simp add: protocol_rebalance_L3_to_target_def init_state_def params)

text \<open>
  C5, amended. For a positive target (and a positive liability NAV): with the price at
  most \<open>EPS\<close> the call raises "oracle not set" and changes nothing; with the price above
  \<open>EPS\<close> it returns \<open>(0, 0)\<close> and changes nothing whenever the liability supply is at
  most \<open>EPS\<close>, the computed burn need is at most \<open>EPS\<close>, or the collateral ratio is
  already at least the target.
\<close>

theorem protocol_rebalance_noop:
  assumes t: "target_cr > 0" and pf: "Pf s > 0"
  shows "(p_sui s \<le> EPS
            \<longrightarrow> protocol_rebalance_L3_to_target target_cr s = Inl (OracleNotSet, s))
       \<and> (p_sui s > EPS
            \<and> (Nf s \<le> EPS
               \<or> (\<exists>need. compute_f_burn_needed_for_target target_cr s = Inr need \<and> need \<le> EPS)
               \<or> collateral_ratio s \<ge> target_cr)
            \<longrightarrow> protocol_rebalance_L3_to_target target_cr s = Inr ((0, 0), s))"
proof (intro conjI impI)
  assume "p_sui s \<le> EPS"
  then show "protocol_rebalance_L3_to_target target_cr s = Inl (OracleNotSet, s)"
    by (simp add: protocol_rebalance_L3_to_target_def)
next
  assume a: "p_sui s > EPS
            \<and> (Nf s \<le> EPS
               \<or> (\<exists>need. compute_f_burn_needed_for_target target_cr s = Inr need \<and> need \<le> EPS)
               \<or> collateral_ratio s \<ge> target_cr)"
  then have p: "\<not> p_sui s \<le> EPS" by simp
  from a consider "Nf s \<le> EPS"
    | need where "compute_f_burn_needed_for_target target_cr s = Inr need" "need \<le> EPS"
    | "collateral_ratio s \<ge> target_cr" by blast
  then show "protocol_rebalance_L3_to_target target_cr s = Inr ((0, 0), s)"
  proof cases
    case 1
    then show ?thesis using p by (simp add: protocol_rebalance_L3_to_target_def)
  next
    case 2
    then show ?thesis using p by (simp add: protocol_rebalance_L3_to_target_def)
  next
    case 3
    have "compute_f_burn_needed_for_target target_cr s = Inr 0"
      using t pf 3 by (rule need_zero_of_cr)
    then show ?thesis using p EPS_pos by (simp add: protocol_rebalance_L3_to_target_def)
  qed
qed

theorem protocol_rebalance_noop_witness:
  "(0::real) < CR_T_L1 \<and> Pf pool_state > 0 \<and> p_sui pool_state > EPS
   \<and> collateral_ratio (pool_state\<lparr>reserve_sui := 150\<rparr>) \<ge> CR_T_L1
   \<and> protocol_rebalance_L3_to_target CR_T_L1 (pool_state\<lparr>reserve_sui := 150\<rparr>)
      = Inr ((0, 0), pool_state\<lparr>reserve_sui := 150\<rparr>)
   \<and> protocol_rebalance_L3_to_target CR_T_L1 (pool_state\<lparr>p_sui := 0\<rparr>)
      = Inl (OracleNotSet, pool_state\<lparr>p_sui := 0\<rparr>)"
  using protocol_rebalance_noop [of CR_T_L1 "pool_state\<lparr>reserve_sui := 150\<rparr>"] protocol_rebalance_noop [of CR_T_L1 "pool_state\<lparr>p_sui := 0\<rparr>"]
  by (simp add: collateral_ratio_def reserve_net_usd_def reserve_net_sui_def example_states params)

section \<open>The scale and the index over a run\<close>

text \<open>
  C7. From any state with a positive scale (and a liability NAV that is not negative, as
  in the starting state), over every sequence of operations, failed ones included, the
  scale never increases and stays positive, and the obligation index never decreases:
  this holds between every earlier and every later state of the run.
\<close>

theorem scale_index_monotone:
  assumes "0 < sp_scale (glob sys)" and "0 \<le> Pf (glob sys)"
  shows "sorted_wrt (\<lambda>a b. sp_scale b \<le> sp_scale a
                          \<and> sp_index_sui_scaled a \<le> sp_index_sui_scaled b) (states_of sys ops)
       \<and> list_all (\<lambda>g. 0 < sp_scale g) (states_of sys ops)"
  using assms
proof (induction ops arbitrary: sys)
  case Nil
  then show ?case by (simp add: states_of_simps)
next
  case (Cons x xs)
  let ?n = "snd (step sys x)"
  from step_scale_index [OF Cons.prems, of x]
  have st: "0 < sp_scale (glob ?n)" "0 \<le> Pf (glob ?n)" by simp_all
  from run_scale_index [OF st, of xs] step_scale_index [OF Cons.prems, of x]
  have "\<forall>g \<in> set (states_of ?n xs).
           sp_scale g \<le> sp_scale (glob sys)
           \<and> sp_index_sui_scaled (glob sys) \<le> sp_index_sui_scaled g"
    by fastforce
  then show ?case using Cons.IH [OF st] Cons.prems(1) by (simp add: states_of_simps)
qed

theorem scale_index_monotone_witness:
  "0 < sp_scale (glob (init_system (\<lambda>_. 100))) \<and> 0 \<le> Pf (glob (init_system (\<lambda>_. 100)))
   \<and> sorted_wrt (\<lambda>a b. sp_scale b \<le> sp_scale a
                          \<and> sp_index_sui_scaled a \<le> sp_index_sui_scaled b)
        (states_of (init_system (\<lambda>_. 100)) scenario_ops)
   \<and> map (\<lambda>g. (sp_scale g, sp_index_sui_scaled g)) (states_of (init_system (\<lambda>_. 100)) scenario_ops)
       = [(1, 0), (1, 0), (1, 0), (1, 0), (1, 0), (3 / 4, 1 / 8), (3 / 4, 349 / 2000)]"
proof -
  have ev: "map (\<lambda>g. (sp_scale g, sp_index_sui_scaled g)) (states_of (init_system (\<lambda>_. 100)) scenario_ops)
       = [(1, 0), (1, 0), (1, 0), (1, 0), (1, 0), (3 / 4, 1 / 8), (3 / 4, 349 / 2000)]"
    by (simp add: scenario_ops_def states_of_simps op_defs Let_def example_states params)
  show ?thesis
    using scale_index_monotone [of "init_system (\<lambda>_. 100)" scenario_ops] ev
    by (simp add: init_system_def init_state_def PF_FIXED_def)
qed

section \<open>Solvency over a run\<close>

text \<open>
  C1. The claim is that after every operation of every sequence from the initial state
  the reserve covers the obligation, \<open>reserve_amount + epsilon \<ge> obligation_total\<close>.
  Three runs from the initial state end with the pool's obligation above the reserve,
  while \<open>check_solvency\<close>, which compares the reserve with the core's own
  \<open>sp_obligation_sui\<close>, answers true after every step. Each list gives, before the run
  and after each operation, the reserve, the pool's obligation, the answer of
  \<open>check_solvency\<close> and the relation in the specification's words.
  \<^item> A harvest of 1000 is indexed while the reserve holds 100.
  \<^item> The price falls from 2 to 1; the first rebalance indexes 100 reserve units, all of
    the reserve, and the second, whose need is computed from a net reserve that still
    reads 100, indexes 15300/653 more.
  \<^item> After a rebalance has indexed 25, a redemption of 150 tokens at price 7/4 is
    checked against a net reserve of 100 and pays 600/7, leaving 100/7.
\<close>

theorem solvency_broken_from_initial_state:
  "map (\<lambda>g. (reserve_sui g, sp_obligation_sui g, check_solvency g, solvent g))
       (states_of (init_system (\<lambda>_. 100)) harvest_ops)
     = [(0, 0, True, True), (0, 0, True, True), (100, 0, True, True), (100, 0, True, True),
        (100, 990, True, False)]
   \<and> map (\<lambda>g. (reserve_sui g, sp_obligation_sui g, check_solvency g, solvent g))
       (states_of (init_system (\<lambda>_. 100)) drain_ops)
     = [(0, 0, True, True), (0, 0, True, True), (100, 0, True, True), (100, 0, True, True),
        (100, 0, True, True), (100, 0, True, True), (100, 0, True, True), (100, 0, True, True),
        (100, 0, True, True), (100, 100, True, True), (100, 80600 / 653, True, False)]
   \<and> map (\<lambda>g. (reserve_sui g, sp_obligation_sui g, check_solvency g, solvent g))
       (states_of (init_system (\<lambda>_. 100)) redeem_ops)
     = [(0, 0, True, True), (0, 0, True, True), (100, 0, True, True), (100, 0, True, True),
        (100, 0, True, True), (100, 25, True, True), (100, 25, True, True),
        (100 / 7, 25, True, False)]"
  by (simp add: harvest_ops_def drain_ops_def redeem_ops_def states_of_simps op_defs Let_def
      example_states params check_solvency_def solvent_def)

section \<open>Value conservation over a run\<close>

text \<open>
  C2. From any state in which the value invariant holds within the tolerance, the
  equity NAV is not negative when equity is outstanding, and no depositor has more than
  \<open>EPS\<close> accrued (the initial state is such a state), after every operation of every
  sequence of mints, redemptions, deposits, withdrawals and claims in which no operation
  raises, the value invariant holds within the same tolerance.
\<close>

theorem value_conservation_user_flows:
  assumes "check_invariant tol (glob sys)"
    and "EPS < Nx (glob sys) \<longrightarrow> 0 \<le> Px (glob sys)"
    and "\<forall>uid. sp_scaled (users sys uid)
                * (sp_index_sui_scaled (glob sys) - sp_index_snap (users sys uid)) \<le> EPS"
    and "list_all user_flow ops" and "list_all is_ok (run sys ops)"
  shows "list_all (check_invariant tol) (states_of sys ops)"
  using assms
proof (induction ops arbitrary: sys)
  case Nil
  then show ?case by (simp add: states_of_simps)
next
  case (Cons x xs)
  have uf: "user_flow x" and ok: "is_ok (step sys x)"
    using Cons.prems(4,5) by (simp_all add: Let_def)
  from step_conserve [OF Cons.prems(1-3) uf ok]
  have n: "check_invariant tol (glob (snd (step sys x)))"
    "EPS < Nx (glob (snd (step sys x))) \<longrightarrow> 0 \<le> Px (glob (snd (step sys x)))"
    "\<forall>uid. sp_scaled (users (snd (step sys x)) uid)
                * (sp_index_sui_scaled (glob (snd (step sys x)))
                   - sp_index_snap (users (snd (step sys x)) uid)) \<le> EPS"
    by blast+
  have "list_all (check_invariant tol) (states_of (snd (step sys x)) xs)"
    using Cons.IH [OF n] Cons.prems(4,5) by (simp add: Let_def)
  then show ?case using Cons.prems(1) by (simp add: states_of_simps)
qed

theorem value_conservation_user_flows_witness:
  "check_invariant (1 / 10 ^ 6) (glob pool_system) \<and> Nx (glob pool_system) = 0
   \<and> (\<forall>uid. sp_scaled (users pool_system uid)
          * (sp_index_sui_scaled (glob pool_system) - sp_index_snap (users pool_system uid)) \<le> EPS)
   \<and> list_all user_flow flow_ops \<and> list_all is_ok (run pool_system flow_ops)
   \<and> map (\<lambda>g. (reserve_usd g, Nf g)) (states_of pool_system flow_ops)
       = [(200, 200), (220, 220), (170, 170), (170, 170), (170, 170), (170, 170)]
   \<and> list_all (check_invariant (1 / 10 ^ 6)) (states_of pool_system flow_ops)
   \<and> list_all is_ok (run (init_system (\<lambda>_. 100)) bootstrap_ops)
   \<and> list_all (check_invariant (1 / 10 ^ 6)) (states_of (init_system (\<lambda>_. 100)) bootstrap_ops)"
proof -
  have ok: "list_all is_ok (run pool_system flow_ops)"
    by (simp add: flow_ops_def is_ok_simps run_Cons op_defs system_defs Let_def example_states
        params del: run.simps(2))
  have ev: "map (\<lambda>g. (reserve_usd g, Nf g)) (states_of pool_system flow_ops)
       = [(200, 200), (220, 220), (170, 170), (170, 170), (170, 170), (170, 170)]"
    by (simp add: flow_ops_def states_of_simps reserve_usd_def op_defs system_defs Let_def
        example_states params)
  have ok0: "list_all is_ok (run (init_system (\<lambda>_. 100)) bootstrap_ops)"
    by (simp add: bootstrap_ops_def is_ok_simps run_Cons op_defs Let_def example_states params
        del: run.simps(2))
  have h: "check_invariant (1 / 10 ^ 6) (glob pool_system)" "Nx (glob pool_system) = 0"
    "\<forall>uid. sp_scaled (users pool_system uid)
          * (sp_index_sui_scaled (glob pool_system) - sp_index_snap (users pool_system uid)) \<le> EPS"
    "list_all user_flow flow_ops"
    by (simp_all add: check_invariant_def reserve_usd_def flow_ops_def system_defs
        example_states params)
  have h0: "check_invariant (1 / 10 ^ 6) (glob (init_system (\<lambda>_. 100)))"
    "Nx (glob (init_system (\<lambda>_. 100))) = 0"
    "\<forall>uid. sp_scaled (users (init_system (\<lambda>_. 100)) uid)
          * (sp_index_sui_scaled (glob (init_system (\<lambda>_. 100)))
             - sp_index_snap (users (init_system (\<lambda>_. 100)) uid)) \<le> EPS"
    "list_all user_flow bootstrap_ops"
    by (simp_all add: check_invariant_def reserve_usd_def bootstrap_ops_def init_system_def
        example_states params)
  show ?thesis
    using value_conservation_user_flows [of "1 / 10 ^ 6" pool_system flow_ops]
      value_conservation_user_flows [of "1 / 10 ^ 6" "init_system (\<lambda>_. 100)" bootstrap_ops]
      ok ev ok0 h h0 EPS_pos
    by simp
qed

end
